theory Spec2Isabelle
  imports Complex_Main "HOL-Library.AList"
begin

section \<open>Data model\<close>

text \<open>
  JavaScript numbers are modelled as mathematical reals (frame indices, which are array
  indices and map keys, as integers), so rounding, infinities and NaN are outside the
  model, with one exception: the time stamp of a motion sample, for which the
  specification asserts an exact value, is computed in double arithmetic, each operation
  rounded. The record fields carry a prefix because the source's field names (\<open>x\<close>,
  \<open>y\<close>, \<open>w\<close>, \<open>h\<close>) are shared by several interfaces.
\<close>

record ROIData =
  roi_x :: real
  roi_y :: real
  roi_w :: real
  roi_h :: real

record MotionData =
  md_frame :: int
  md_x :: real
  md_y :: real
  md_vx :: real
  md_vy :: real
  md_speed :: real
  md_ax :: real
  md_ay :: real
  md_acceleration :: real
  md_time :: real

text \<open>
  A JavaScript \<open>Map\<close> is an association list in insertion order; a well-formed one has
  distinct keys. \<open>get\<close> is \<^const>\<open>map_of\<close>, \<open>keys()\<close> is \<open>map fst\<close> and \<open>set\<close> is
  \<^const>\<open>AList.update\<close> (an existing key keeps its place, a new key goes to the end).
\<close>

type_synonym ('k, 'v) js_map = "('k \<times> 'v) list"

section \<open>Double arithmetic\<close>

text \<open>
  The result of an arithmetic operation on doubles is the exact result rounded to the
  nearest number with 53 significant bits, a tie going to the even significand. The
  exponent is not bounded here: overflow to infinity and gradual underflow are outside
  the model.
\<close>

definition round_half_even :: "real \<Rightarrow> int" where
  "round_half_even y =
     (let f = \<lfloor>y\<rfloor>
      in if y - of_int f < 1 / 2 then f
         else if y - of_int f > 1 / 2 then f + 1
         else if even f then f else f + 1)"

definition fl64 :: "real \<Rightarrow> real" where
  "fl64 x =
     (if x = 0 then 0
      else let e = \<lfloor>log 2 \<bar>x\<bar>\<rfloor>;
               ulp = 2 powr of_int (e - 52)
           in sgn x * (of_int (round_half_even (\<bar>x\<bar> / ulp)) * ulp))"

section \<open>Kinematics estimator (\<open>analyzeMotion\<close>)\<close>

text \<open>
  One iteration of the loop body: the sample pushed for index \<open>i\<close>, given the samples
  pushed so far. \<open>dt\<close> is \<open>1 / fps\<close>. The time stamp \<open>frameIndex * dt\<close> is the one
  value computed in double arithmetic: \<open>fl64 dt\<close> is the double that the source holds
  in \<open>dt\<close> after the division, and the product is rounded again.
\<close>

definition motion_sample ::
  "(int, ROIData) js_map \<Rightarrow> real \<Rightarrow> real \<Rightarrow> int list \<Rightarrow> MotionData list \<Rightarrow> nat \<Rightarrow> MotionData"
where
  "motion_sample frameROIs dt pixelsPerMeter sortedFrames motionData i =
    (let frameIndex = sortedFrames ! i;
         roi = the (map_of frameROIs frameIndex);
         x = (roi_x roi + roi_w roi / 2) / pixelsPerMeter;
         y = (roi_y roi + roi_h roi / 2) / pixelsPerMeter;
         time = fl64 (of_int frameIndex * fl64 dt);
         (vx, vy) =
           (if 0 < i \<and> int i < int (length sortedFrames) - 1 then
              let prevFrame = sortedFrames ! (i - 1);
                  nextFrame = sortedFrames ! (i + 1);
                  prevROI = the (map_of frameROIs prevFrame);
                  nextROI = the (map_of frameROIs nextFrame);
                  x_prev = (roi_x prevROI + roi_w prevROI / 2) / pixelsPerMeter;
                  y_prev = (roi_y prevROI + roi_h prevROI / 2) / pixelsPerMeter;
                  x_next = (roi_x nextROI + roi_w nextROI / 2) / pixelsPerMeter;
                  y_next = (roi_y nextROI + roi_h nextROI / 2) / pixelsPerMeter;
                  dt_total = of_int (nextFrame - prevFrame) * dt
              in ((x_next - x_prev) / dt_total, (y_next - y_prev) / dt_total)
            else if 0 < i then
              let prevFrame = sortedFrames ! (i - 1);
                  prevROI = the (map_of frameROIs prevFrame);
                  x_prev = (roi_x prevROI + roi_w prevROI / 2) / pixelsPerMeter;
                  y_prev = (roi_y prevROI + roi_h prevROI / 2) / pixelsPerMeter
              in ((x - x_prev) / dt, (y - y_prev) / dt)
            else if int i < int (length sortedFrames) - 1 then
              let nextFrame = sortedFrames ! (i + 1);
                  nextROI = the (map_of frameROIs nextFrame);
                  x_next = (roi_x nextROI + roi_w nextROI / 2) / pixelsPerMeter;
                  y_next = (roi_y nextROI + roi_h nextROI / 2) / pixelsPerMeter
              in ((x_next - x) / dt, (y_next - y) / dt)
            else (0, 0));
         speed = sqrt (vx * vx + vy * vy);
         (ax, ay, acceleration) =
           (if 0 < i then
              let prevMotion = motionData ! (i - 1);
                  ax = (vx - md_vx prevMotion) / dt;
                  ay = (vy - md_vy prevMotion) / dt
              in (ax, ay, sqrt (ax * ax + ay * ay))
            else (0, 0, 0))
     in \<lparr> md_frame = frameIndex, md_x = x, md_y = y, md_vx = vx, md_vy = vy,
          md_speed = speed, md_ax = ax, md_ay = ay, md_acceleration = acceleration,
          md_time = time \<rparr>)"

text \<open>The \<open>for\<close> loop: the indices still to visit, and \<open>motionData\<close> as pushed so far.\<close>

fun analyze_loop ::
  "(int, ROIData) js_map \<Rightarrow> real \<Rightarrow> real \<Rightarrow> int list \<Rightarrow> MotionData list \<Rightarrow> nat list \<Rightarrow> MotionData list"
where
  "analyze_loop frameROIs dt pixelsPerMeter sortedFrames motionData [] = motionData"
| "analyze_loop frameROIs dt pixelsPerMeter sortedFrames motionData (i # rest) =
     analyze_loop frameROIs dt pixelsPerMeter sortedFrames
       (motionData @ [motion_sample frameROIs dt pixelsPerMeter sortedFrames motionData i]) rest"

definition analyzeMotion :: "(int, ROIData) js_map \<Rightarrow> real \<Rightarrow> real \<Rightarrow> MotionData list" where
  "analyzeMotion frameROIs fps pixelsPerMeter =
    (let sortedFrames = sort (map fst frameROIs)
     in if length sortedFrames < 2 then []
        else analyze_loop frameROIs (1 / fps) pixelsPerMeter sortedFrames []
               [0..<length sortedFrames])"

text \<open>
  The quantities the estimator is specified with: the centre of a box, the calibrated
  position of the box stored under a key, and the Euclidean norm of a plane vector.
\<close>

definition box_center :: "ROIData \<Rightarrow> real \<times> real" where
  "box_center box = (roi_x box + roi_w box / 2, roi_y box + roi_h box / 2)"

definition pos :: "(int, ROIData) js_map \<Rightarrow> real \<Rightarrow> int \<Rightarrow> real \<times> real" where
  "pos sequence pixelsPerMeter k =
     (fst (box_center (the (map_of sequence k))) / pixelsPerMeter,
      snd (box_center (the (map_of sequence k))) / pixelsPerMeter)"

definition euclidean_norm :: "real \<Rightarrow> real \<Rightarrow> real" where
  "euclidean_norm a b = sqrt (a\<^sup>2 + b\<^sup>2)"

section \<open>Smoother (\<open>smoothMotionData\<close>)\<close>

text \<open>
  \<open>Array.prototype.slice\<close> with both arguments: a negative index counts from the end,
  both ends are clamped to the array, and an empty range gives the empty array.
\<close>

definition js_slice :: "'a list \<Rightarrow> int \<Rightarrow> int \<Rightarrow> 'a list" where
  "js_slice xs start endIdx =
    (let len = int (length xs);
         k = (if start < 0 then max (len + start) 0 else min start len);
         final = (if endIdx < 0 then max (len + endIdx) 0 else min endIdx len)
     in take (nat (final - k)) (drop (nat k) xs))"

text \<open>\<open>window.reduce((sum, d) => sum + d.f, 0)\<close> for a field \<open>f\<close>.\<close>

definition reduce_sum :: "(MotionData \<Rightarrow> real) \<Rightarrow> MotionData list \<Rightarrow> real" where
  "reduce_sum f window = foldl (\<lambda>sum d. sum + f d) 0 window"

text \<open>The object \<open>avg\<close> built for index \<open>i\<close>.\<close>

definition smoothed_sample :: "MotionData list \<Rightarrow> int \<Rightarrow> nat \<Rightarrow> MotionData" where
  "smoothed_sample data halfWindow i =
    (let start = max 0 (int i - halfWindow);
         endIdx = min (int (length data)) (int i + halfWindow + 1);
         window = js_slice data start endIdx
     in \<lparr> md_frame = md_frame (data ! i),
          md_x = reduce_sum md_x window / real (length window),
          md_y = reduce_sum md_y window / real (length window),
          md_vx = reduce_sum md_vx window / real (length window),
          md_vy = reduce_sum md_vy window / real (length window),
          md_speed = reduce_sum md_speed window / real (length window),
          md_ax = reduce_sum md_ax window / real (length window),
          md_ay = reduce_sum md_ay window / real (length window),
          md_acceleration = reduce_sum md_acceleration window / real (length window),
          md_time = md_time (data ! i) \<rparr>)"

definition smoothMotionData :: "MotionData list \<Rightarrow> real \<Rightarrow> MotionData list" where
  "smoothMotionData data windowSize =
    (if real (length data) < windowSize then data
     else let halfWindow = \<lfloor>windowSize / 2\<rfloor>
          in map (smoothed_sample data halfWindow) [0..<length data])"

text \<open>
  The smoother as specified: the arithmetic mean of a field over the index range
  \<open>[lo, hi)\<close> of the samples.
\<close>

definition mean_over :: "(MotionData \<Rightarrow> real) \<Rightarrow> MotionData list \<Rightarrow> nat \<Rightarrow> nat \<Rightarrow> real" where
  "mean_over f samples lo hi = (\<Sum>j = lo..<hi. f (samples ! j)) / real (hi - lo)"

definition window_lo :: "real \<Rightarrow> nat \<Rightarrow> nat" where
  "window_lo w i = nat (max 0 (int i - \<lfloor>w / 2\<rfloor>))"

definition window_hi :: "real \<Rightarrow> nat \<Rightarrow> nat \<Rightarrow> nat" where
  "window_hi w n i = nat (min (int n) (int i + \<lfloor>w / 2\<rfloor> + 1))"

section \<open>Tracker (\<open>useObjectTracking\<close>)\<close>

record TrackedROI = ROIData +
  confidence :: real


text \<open>
  \<open>postprocessResults\<close>. The output tensor's \<open>data\<close> is a function from the flat index
  to the value stored there (84 rows of 8400 proposals). The inner loop takes the largest
  class score of proposal \<open>offset\<close>, starting from 0.
\<close>

definition max_class_score :: "(nat \<Rightarrow> real) \<Rightarrow> nat \<Rightarrow> real" where
  "max_class_score data offset =
     fold (\<lambda>c maxScore. let score = data (c * 8400 + offset)
                         in if score > maxScore then score else maxScore) [4..<84] 0"

text \<open>The body of the outer loop, on the pair \<open>(bestDetection, bestScore)\<close>.\<close>

definition detection_step ::
  "(nat \<Rightarrow> real) \<Rightarrow> ROIData \<Rightarrow> real \<Rightarrow> real \<Rightarrow> TrackedROI option \<times> real \<Rightarrow> nat
   \<Rightarrow> TrackedROI option \<times> real"
where
  "detection_step data targetROI originalWidth originalHeight best i =
    (let bestDetection = fst best; bestScore = snd best;
         targetCenterX = roi_x targetROI + roi_w targetROI / 2;
         targetCenterY = roi_y targetROI + roi_h targetROI / 2;
         offset = i;
         x = data offset;
         y = data (8400 + offset);
         w = data (16800 + offset);
         h = data (25200 + offset);
         maxScore = max_class_score data offset
     in if maxScore > 0.25 then
          let detCenterX = x * originalWidth / 640;
              detCenterY = y * originalHeight / 640;
              distance = sqrt ((detCenterX - targetCenterX)\<^sup>2 + (detCenterY - targetCenterY)\<^sup>2);
              score = maxScore / (1 + distance / 100)
          in if score > bestScore then
               (Some \<lparr> roi_x = (x - w / 2) * originalWidth / 640,
                       roi_y = (y - h / 2) * originalHeight / 640,
                       roi_w = w * originalWidth / 640,
                       roi_h = h * originalHeight / 640,
                       confidence = maxScore \<rparr>, score)
             else (bestDetection, bestScore)
        else (bestDetection, bestScore))"

definition postprocess_loop ::
  "(nat \<Rightarrow> real) \<Rightarrow> ROIData \<Rightarrow> real \<Rightarrow> real \<Rightarrow> nat \<Rightarrow> TrackedROI option \<times> real"
where
  "postprocess_loop data targetROI originalWidth originalHeight n =
     foldl (detection_step data targetROI originalWidth originalHeight) (None, 0) [0..<n]"

definition postprocessResults ::
  "(nat \<Rightarrow> real) \<Rightarrow> ROIData \<Rightarrow> real \<Rightarrow> real \<Rightarrow> TrackedROI option"
where
  "postprocessResults data targetROI originalWidth originalHeight =
     fst (postprocess_loop data targetROI originalWidth originalHeight 8400)"

text \<open>
  The candidates as the specification speaks of them: proposal \<open>i\<close> has a confidence, a
  centre in image pixels, a box, and a score against the hint.
\<close>

definition candidate_confidence :: "(nat \<Rightarrow> real) \<Rightarrow> nat \<Rightarrow> real" where
  "candidate_confidence data i = max_class_score data i"

definition candidate_center :: "(nat \<Rightarrow> real) \<Rightarrow> real \<Rightarrow> real \<Rightarrow> nat \<Rightarrow> real \<times> real" where
  "candidate_center data W H i = (data i * W / 640, data (8400 + i) * H / 640)"

definition candidate_box :: "(nat \<Rightarrow> real) \<Rightarrow> real \<Rightarrow> real \<Rightarrow> nat \<Rightarrow> TrackedROI" where
  "candidate_box data W H i =
     \<lparr> roi_x = (data i - data (16800 + i) / 2) * W / 640,
       roi_y = (data (8400 + i) - data (25200 + i) / 2) * H / 640,
       roi_w = data (16800 + i) * W / 640,
       roi_h = data (25200 + i) * H / 640,
       confidence = candidate_confidence data i \<rparr>"

definition distance_to_hint_center ::
  "(nat \<Rightarrow> real) \<Rightarrow> ROIData \<Rightarrow> real \<Rightarrow> real \<Rightarrow> nat \<Rightarrow> real"
where
  "distance_to_hint_center data hint W H i =
     euclidean_norm (fst (candidate_center data W H i) - fst (box_center hint))
                    (snd (candidate_center data W H i) - snd (box_center hint))"

definition candidate_score :: "(nat \<Rightarrow> real) \<Rightarrow> ROIData \<Rightarrow> real \<Rightarrow> real \<Rightarrow> nat \<Rightarrow> real" where
  "candidate_score data hint W H i =
     candidate_confidence data i / (1 + distance_to_hint_center data hint W H i / 100)"

definition acceptable :: "(nat \<Rightarrow> real) \<Rightarrow> nat \<Rightarrow> bool" where
  "acceptable data i \<longleftrightarrow> candidate_confidence data i > 0.25"

text \<open>
  Candidate \<open>i\<close> is the first-seen maximiser among the acceptable ones of the first
  \<open>n\<close> proposals.
\<close>

definition first_best :: "(nat \<Rightarrow> real) \<Rightarrow> ROIData \<Rightarrow> real \<Rightarrow> real \<Rightarrow> nat \<Rightarrow> nat \<Rightarrow> bool" where
  "first_best data hint W H n i \<longleftrightarrow>
     i < n \<and> acceptable data i \<and>
     (\<forall>j<n. acceptable data j \<longrightarrow> candidate_score data hint W H j \<le> candidate_score data hint W H i) \<and>
     (\<forall>j<i. acceptable data j \<longrightarrow> candidate_score data hint W H j < candidate_score data hint W H i)"








section \<open>Example inputs\<close>

definition seq3 :: "(int, ROIData) js_map" where
  "seq3 = [(5, \<lparr>roi_x = 290, roi_y = 90, roi_w = 20, roi_h = 20\<rparr>),
           (0, \<lparr>roi_x = 90, roi_y = 90, roi_w = 20, roi_h = 20\<rparr>),
           (2, \<lparr>roi_x = 190, roi_y = 40, roi_w = 20, roi_h = 20\<rparr>)]"

definition seq03 :: "(int, ROIData) js_map" where
  "seq03 = [(0, \<lparr>roi_x = 100, roi_y = 100, roi_w = 20, roi_h = 20\<rparr>),
            (3, \<lparr>roi_x = 130, roi_y = 100, roi_w = 20, roi_h = 20\<rparr>)]"

definition seq2 :: "(int, ROIData) js_map" where
  "seq2 = [(0, \<lparr>roi_x = 100, roi_y = 100, roi_w = 20, roi_h = 20\<rparr>),
           (2, \<lparr>roi_x = 300, roi_y = 100, roi_w = 20, roi_h = 20\<rparr>)]"

definition seq_osc :: "(int, ROIData) js_map" where
  "seq_osc = [(0, \<lparr>roi_x = 0, roi_y = 0, roi_w = 20, roi_h = 20\<rparr>),
              (1, \<lparr>roi_x = 100, roi_y = 0, roi_w = 20, roi_h = 20\<rparr>),
              (2, \<lparr>roi_x = 0, roi_y = 0, roi_w = 20, roi_h = 20\<rparr>)]"

text \<open>
  An output tensor for the examples: every proposal is the box centred at (320, 320) of
  size 320 x 320; proposals 7 and 9 have class score 0.9, all others 0.5.
\<close>

definition tensor0 :: "nat \<Rightarrow> real" where
  "tensor0 k = (if k < 33600 then 320 else if k mod 8400 = 7 \<or> k mod 8400 = 9 then 9 / 10 else 1 / 2)"

definition hint0 :: ROIData where
  "hint0 = \<lparr>roi_x = 300, roi_y = 300, roi_w = 40, roi_h = 40\<rparr>"




section \<open>Rounding to double\<close>

lemma round_half_even_error: "\<bar>of_int (round_half_even y) - y\<bar> \<le> 1 / 2"
proof -
  have "of_int \<lfloor>y\<rfloor> \<le> y" "y < of_int \<lfloor>y\<rfloor> + 1" by linarith+
  then show ?thesis by (auto simp: round_half_even_def Let_def)
qed

lemma fl64_positive:
  assumes "0 < x" and "2 powr of_int e \<le> x" and "x < 2 powr of_int (e + 1)"
  shows "fl64 x = of_int (round_half_even (x / 2 powr of_int (e - 52))) * 2 powr of_int (e - 52)"
proof -
  have "\<lfloor>log 2 x\<rfloor> = e"
    using assms by (simp add: floor_log_eq_powr_iff)
  then show ?thesis using assms(1) by (simp add: fl64_def Let_def)
qed

lemma fl64_zero: "fl64 0 = 0"
  by (simp add: fl64_def)

lemma fl64_relative_error: "\<bar>fl64 x - x\<bar> \<le> \<bar>x\<bar> / 2 ^ 53"
proof (cases "x = 0")
  case True
  then show ?thesis by (simp add: fl64_def)
next
  case False
  define e where "e = \<lfloor>log 2 \<bar>x\<bar>\<rfloor>"
  define u :: real where "u = 2 powr of_int (e - 52)"
  define r where "r = round_half_even (\<bar>x\<bar> / u)"
  have u: "0 < u" by (simp add: u_def)
  have fx: "fl64 x = sgn x * (of_int r * u)"
    using False by (simp add: fl64_def Let_def e_def u_def r_def)
  have "x = sgn x * \<bar>x\<bar>" by (simp add: sgn_mult_abs)
  then have "fl64 x - x = sgn x * (of_int r * u - \<bar>x\<bar>)"
    by (simp add: fx right_diff_distrib)
  then have "\<bar>fl64 x - x\<bar> = \<bar>of_int r * u - \<bar>x\<bar>\<bar>"
    using False by (simp add: abs_mult abs_sgn_eq)
  also have "of_int r * u - \<bar>x\<bar> = (of_int r - \<bar>x\<bar> / u) * u"
    using u by (simp add: left_diff_distrib)
  also have "\<bar>\<dots>\<bar> = \<bar>of_int r - \<bar>x\<bar> / u\<bar> * u"
    using u by (simp add: abs_mult)
  also have "\<dots> \<le> 1 / 2 * u"
    using round_half_even_error [of "\<bar>x\<bar> / u"] u
    by (intro mult_right_mono) (simp_all add: r_def)
  finally have err: "\<bar>fl64 x - x\<bar> \<le> u / 2" by simp
  have "of_int e \<le> log 2 \<bar>x\<bar>" by (simp add: e_def)
  then have "2 powr of_int e \<le> 2 powr log 2 \<bar>x\<bar>" by simp
  then have "2 powr of_int e \<le> \<bar>x\<bar>" using False by simp
  moreover have "u = 2 powr of_int e / 2 ^ 52"
    by (simp add: u_def powr_diff)
  ultimately have "u \<le> \<bar>x\<bar> / 2 ^ 52" by (simp add: divide_right_mono)
  then have "u / 2 \<le> \<bar>x\<bar> / 2 ^ 53" by simp
  with err show ?thesis by linarith
qed

lemma fl64_one_tenth: "fl64 (1 / 10) = 3602879701896397 / 36028797018963968"
proof -
  have "fl64 (1 / 10) = of_int (round_half_even ((1 / 10) / 2 powr of_int (- 4 - 52))) * 2 powr of_int (- 4 - 52)"
    by (rule fl64_positive) (simp_all add: powr_minus_divide)
  also have "2 powr of_int (- 4 - 52) = (1::real) / 2 ^ 56"
    by (simp add: powr_minus_divide)
  finally show ?thesis
    by (simp add: round_half_even_def Let_def)
qed

lemma fl64_one: "fl64 1 = 1"
proof -
  have "fl64 1 = of_int (round_half_even (1 / 2 powr of_int (0 - 52))) * 2 powr of_int (0 - 52)"
    by (rule fl64_positive) simp_all
  also have "2 powr of_int (0 - 52) = (1::real) / 2 ^ 52"
    by (simp add: powr_minus_divide)
  finally show ?thesis
    by (simp add: round_half_even_def Let_def)
qed

lemma fl64_two: "fl64 2 = 2"
proof -
  have "fl64 2 = of_int (round_half_even (2 / 2 powr of_int (1 - 52))) * 2 powr of_int (1 - 52)"
    by (rule fl64_positive) simp_all
  also have "2 powr of_int (1 - 52) = (1::real) / 2 ^ 51"
    by (simp add: powr_minus_divide)
  finally show ?thesis
    by (simp add: round_half_even_def Let_def)
qed

lemma time_stamp_error:
  "\<bar>fl64 (k * fl64 d) - k * d\<bar> \<le> \<bar>k * d\<bar> / 2 ^ 51"
proof -
  define eps :: real where "eps = 1 / 2 ^ 53"
  have eps: "0 \<le> eps" "eps \<le> 1" by (simp_all add: eps_def)
  have a: "\<bar>fl64 d - d\<bar> \<le> \<bar>d\<bar> * eps"
    using fl64_relative_error [of d] by (simp add: eps_def)
  have t: "\<bar>fl64 (k * fl64 d) - k * fl64 d\<bar> \<le> \<bar>k * fl64 d\<bar> * eps"
    using fl64_relative_error [of "k * fl64 d"] by (simp add: eps_def)
  have "\<bar>fl64 d\<bar> \<le> \<bar>d\<bar> + \<bar>d\<bar> * eps" using a by linarith
  then have "\<bar>k\<bar> * \<bar>fl64 d\<bar> \<le> \<bar>k\<bar> * (\<bar>d\<bar> + \<bar>d\<bar> * eps)"
    by (intro mult_left_mono) simp_all
  then have ka: "\<bar>k * fl64 d\<bar> \<le> \<bar>k * d\<bar> * (1 + eps)"
    by (simp add: abs_mult algebra_simps)
  have "\<bar>k * fl64 d\<bar> * eps \<le> \<bar>k * d\<bar> * (1 + eps) * eps"
    using ka eps(1) by (intro mult_right_mono) simp_all
  with t have t': "\<bar>fl64 (k * fl64 d) - k * fl64 d\<bar> \<le> \<bar>k * d\<bar> * (1 + eps) * eps"
    by linarith
  have "\<bar>k * fl64 d - k * d\<bar> = \<bar>k\<bar> * \<bar>fl64 d - d\<bar>"
    by (simp add: abs_mult right_diff_distrib [symmetric])
  also have "\<dots> \<le> \<bar>k\<bar> * (\<bar>d\<bar> * eps)"
    using a by (intro mult_left_mono) simp_all
  finally have a': "\<bar>k * fl64 d - k * d\<bar> \<le> \<bar>k * d\<bar> * eps"
    by (simp add: abs_mult algebra_simps)
  have "\<bar>fl64 (k * fl64 d) - k * d\<bar> \<le> \<bar>k * d\<bar> * (1 + eps) * eps + \<bar>k * d\<bar> * eps"
    using t' a' by linarith
  also have "\<dots> = \<bar>k * d\<bar> * ((1 + eps) * eps + eps)" by (simp add: algebra_simps)
  also have "\<dots> \<le> \<bar>k * d\<bar> * (1 / 2 ^ 51)"
    by (intro mult_left_mono) (simp_all add: eps_def)
  finally show ?thesis by simp
qed


section \<open>The loop of the estimator\<close>

lemma analyze_loop_length:
  "length (analyze_loop m dt ppm ks acc is) = length acc + length is"
  by (induction "is" arbitrary: acc) simp_all

lemma analyze_loop_prefix:
  "take (length acc) (analyze_loop m dt ppm ks acc is) = acc"
proof (induction "is" arbitrary: acc)
  case Nil
  show ?case by simp
next
  case (Cons i rest)
  have "take (length (acc @ [motion_sample m dt ppm ks acc i]))
          (analyze_loop m dt ppm ks (acc @ [motion_sample m dt ppm ks acc i]) rest)
        = acc @ [motion_sample m dt ppm ks acc i]"
    by (rule Cons.IH)
  then have "take (length acc) (take (Suc (length acc))
          (analyze_loop m dt ppm ks (acc @ [motion_sample m dt ppm ks acc i]) rest)) = acc"
    by simp
  then show ?case by (simp add: min_def)
qed

lemma analyze_loop_nth:
  "j < length is \<Longrightarrow>
   analyze_loop m dt ppm ks acc is ! (length acc + j) =
   motion_sample m dt ppm ks (take (length acc + j) (analyze_loop m dt ppm ks acc is)) (is ! j)"
proof (induction "is" arbitrary: acc j)
  case Nil
  then show ?case by simp
next
  case (Cons i rest)
  let ?s = "motion_sample m dt ppm ks acc i"
  let ?r = "analyze_loop m dt ppm ks (acc @ [?s]) rest"
  have pre: "take (Suc (length acc)) ?r = acc @ [?s]"
    using analyze_loop_prefix [of "acc @ [?s]" m dt ppm ks rest] by simp
  show ?case
  proof (cases j)
    case 0
    have "take (length acc) (take (Suc (length acc)) ?r) = acc"
      by (simp only: pre) simp
    then have t: "take (length acc) ?r = acc" by (simp add: min_def)
    have "?r ! length acc = (take (Suc (length acc)) ?r) ! length acc" by simp
    also have "\<dots> = ?s" by (simp only: pre) simp
    finally show ?thesis using 0 t by simp
  next
    case (Suc j')
    then have "j' < length rest" using Cons.prems by simp
    from Cons.IH [OF this, of "acc @ [?s]"] show ?thesis using Suc by simp
  qed
qed

lemma analyzeMotion_length:
  "2 \<le> length m \<Longrightarrow> length (analyzeMotion m fps ppm) = length m"
  by (simp add: analyzeMotion_def analyze_loop_length)

lemma analyzeMotion_nth:
  assumes "2 \<le> length m" and "i < length m"
  shows "analyzeMotion m fps ppm ! i =
         motion_sample m (1 / fps) ppm (sort (map fst m)) (take i (analyzeMotion m fps ppm)) i"
proof -
  let ?ks = "sort (map fst m)"
  have "i < length [0..<length ?ks]" using assms by simp
  from analyze_loop_nth [OF this, of m "1 / fps" ppm ?ks "[]"]
  show ?thesis using assms by (simp add: analyzeMotion_def)
qed

lemma motion_sample_frame: "md_frame (motion_sample m dt ppm ks acc i) = ks ! i"
  by (simp add: motion_sample_def Let_def split: prod.splits)

lemma motion_sample_time:
  "md_time (motion_sample m dt ppm ks acc i) = fl64 (of_int (ks ! i) * fl64 dt)"
  by (simp add: motion_sample_def Let_def split: prod.splits)

lemma motion_sample_x:
  "md_x (motion_sample m dt ppm ks acc i) =
   (roi_x (the (map_of m (ks ! i))) + roi_w (the (map_of m (ks ! i))) / 2) / ppm"
  by (simp add: motion_sample_def Let_def split: prod.splits)

lemma motion_sample_y:
  "md_y (motion_sample m dt ppm ks acc i) =
   (roi_y (the (map_of m (ks ! i))) + roi_h (the (map_of m (ks ! i))) / 2) / ppm"
  by (simp add: motion_sample_def Let_def split: prod.splits)

lemma motion_sample_speed:
  "md_speed (motion_sample m dt ppm ks acc i) =
   sqrt (md_vx (motion_sample m dt ppm ks acc i) * md_vx (motion_sample m dt ppm ks acc i) +
         md_vy (motion_sample m dt ppm ks acc i) * md_vy (motion_sample m dt ppm ks acc i))"
  by (simp add: motion_sample_def Let_def split: prod.splits)

lemma motion_sample_acceleration:
  "md_acceleration (motion_sample m dt ppm ks acc i) =
   sqrt (md_ax (motion_sample m dt ppm ks acc i) * md_ax (motion_sample m dt ppm ks acc i) +
         md_ay (motion_sample m dt ppm ks acc i) * md_ay (motion_sample m dt ppm ks acc i))"
  by (simp add: motion_sample_def Let_def split: prod.splits)

lemma motion_sample_acc_first:
  "md_ax (motion_sample m dt ppm ks acc 0) = 0 \<and> md_ay (motion_sample m dt ppm ks acc 0) = 0
   \<and> md_acceleration (motion_sample m dt ppm ks acc 0) = 0"
  by (simp add: motion_sample_def Let_def split: prod.splits)

lemma motion_sample_acc_later:
  "0 < i \<Longrightarrow>
   md_ax (motion_sample m dt ppm ks acc i) =
     (md_vx (motion_sample m dt ppm ks acc i) - md_vx (acc ! (i - 1))) / dt \<and>
   md_ay (motion_sample m dt ppm ks acc i) =
     (md_vy (motion_sample m dt ppm ks acc i) - md_vy (acc ! (i - 1))) / dt"
  by (simp add: motion_sample_def Let_def split: prod.splits)

lemma motion_sample_v_interior:
  "0 < i \<Longrightarrow> i + 1 < length ks \<Longrightarrow>
   md_vx (motion_sample m dt ppm ks acc i) =
     ((roi_x (the (map_of m (ks ! (i + 1)))) + roi_w (the (map_of m (ks ! (i + 1)))) / 2) / ppm
      - (roi_x (the (map_of m (ks ! (i - 1)))) + roi_w (the (map_of m (ks ! (i - 1)))) / 2) / ppm)
     / (of_int (ks ! (i + 1) - ks ! (i - 1)) * dt) \<and>
   md_vy (motion_sample m dt ppm ks acc i) =
     ((roi_y (the (map_of m (ks ! (i + 1)))) + roi_h (the (map_of m (ks ! (i + 1)))) / 2) / ppm
      - (roi_y (the (map_of m (ks ! (i - 1)))) + roi_h (the (map_of m (ks ! (i - 1)))) / 2) / ppm)
     / (of_int (ks ! (i + 1) - ks ! (i - 1)) * dt)"
  by (simp add: motion_sample_def Let_def split: prod.splits)

lemma motion_sample_v_last:
  "0 < i \<Longrightarrow> i + 1 = length ks \<Longrightarrow>
   md_vx (motion_sample m dt ppm ks acc i) =
     ((roi_x (the (map_of m (ks ! i))) + roi_w (the (map_of m (ks ! i))) / 2) / ppm
      - (roi_x (the (map_of m (ks ! (i - 1)))) + roi_w (the (map_of m (ks ! (i - 1)))) / 2) / ppm)
     / dt \<and>
   md_vy (motion_sample m dt ppm ks acc i) =
     ((roi_y (the (map_of m (ks ! i))) + roi_h (the (map_of m (ks ! i))) / 2) / ppm
      - (roi_y (the (map_of m (ks ! (i - 1)))) + roi_h (the (map_of m (ks ! (i - 1)))) / 2) / ppm)
     / dt"
  by (simp add: motion_sample_def Let_def split: prod.splits)

lemma motion_sample_v_first:
  "1 < length ks \<Longrightarrow>
   md_vx (motion_sample m dt ppm ks acc 0) =
     ((roi_x (the (map_of m (ks ! 1))) + roi_w (the (map_of m (ks ! 1))) / 2) / ppm
      - (roi_x (the (map_of m (ks ! 0))) + roi_w (the (map_of m (ks ! 0))) / 2) / ppm)
     / dt \<and>
   md_vy (motion_sample m dt ppm ks acc 0) =
     ((roi_y (the (map_of m (ks ! 1))) + roi_h (the (map_of m (ks ! 1))) / 2) / ppm
      - (roi_y (the (map_of m (ks ! 0))) + roi_h (the (map_of m (ks ! 0))) / 2) / ppm)
     / dt"
  by (simp add: motion_sample_def Let_def split: prod.splits)

section \<open>Estimator: degenerate input\<close>

text \<open>
  C8: a tracked sequence with fewer than two entries (empty, or a single key) yields the
  empty sequence of motion samples.
\<close>

theorem C8_fewer_than_two_empty:
  "length frameROIs < 2 \<Longrightarrow> analyzeMotion frameROIs fps pixelsPerMeter = []"
  by (simp add: analyzeMotion_def)

theorem C8_fewer_than_two_empty_witness:
  "length [(7::int, \<lparr>roi_x = 1, roi_y = 2, roi_w = 3, roi_h = 4\<rparr>)] < 2 \<and>
   analyzeMotion [(7, \<lparr>roi_x = 1, roi_y = 2, roi_w = 3, roi_h = 4\<rparr>)] 30 100 = []"
  using C8_fewer_than_two_empty [of "[(7, \<lparr>roi_x = 1, roi_y = 2, roi_w = 3, roi_h = 4\<rparr>)]" 30 100]
  by simp

section \<open>Estimator: samples, order, velocity\<close>

lemma sorted_keys_strict:
  assumes "distinct (map fst m)" and "i < j" and "j < length m"
  shows "sort (map fst m) ! i < sort (map fst m) ! j"
proof -
  let ?ks = "sort (map fst m)"
  have d: "distinct ?ks" using assms(1) by simp
  have l: "length ?ks = length m" by simp
  have "?ks ! i \<le> ?ks ! j"
    using assms(2,3) l by (simp add: sorted_nth_mono)
  moreover have "?ks ! i \<noteq> ?ks ! j"
    using d assms(2,3) l by (simp add: nth_eq_iff_index_eq)
  ultimately show ?thesis by simp
qed

text \<open>
  C4: for distinct keys, fps > 0, pixelsPerMeter > 0 and an interior index 0 < i < n - 1,
  the velocity of sample i is the central difference over the neighbouring keys,
  (pos(k_{i+1}) - pos(k_{i-1})) / ((k_{i+1} - k_{i-1}) / fps), where pos is the centre of
  the box (x + w/2, y + h/2) divided by pixelsPerMeter; the elapsed time is positive.
\<close>

theorem C4_interior_central_difference:
  assumes "distinct (map fst m)" and "0 < fps" and "0 < ppm" and "0 < i" and "i + 1 < length m"
  shows "md_vx (analyzeMotion m fps ppm ! i) =
           (fst (pos m ppm (sort (map fst m) ! (i + 1))) - fst (pos m ppm (sort (map fst m) ! (i - 1))))
           / (of_int (sort (map fst m) ! (i + 1) - sort (map fst m) ! (i - 1)) / fps)
       \<and> md_vy (analyzeMotion m fps ppm ! i) =
           (snd (pos m ppm (sort (map fst m) ! (i + 1))) - snd (pos m ppm (sort (map fst m) ! (i - 1))))
           / (of_int (sort (map fst m) ! (i + 1) - sort (map fst m) ! (i - 1)) / fps)
       \<and> (md_x (analyzeMotion m fps ppm ! i), md_y (analyzeMotion m fps ppm ! i)) =
           pos m ppm (sort (map fst m) ! i)
       \<and> 0 < of_int (sort (map fst m) ! (i + 1) - sort (map fst m) ! (i - 1)) / fps"
proof -
  have n: "2 \<le> length m" "i < length m" using assms(4,5) by simp_all
  have il: "i + 1 < length (sort (map fst m))" using assms(5) by simp
  note s = analyzeMotion_nth [OF n, of fps ppm]
  have vx: "md_vx (analyzeMotion m fps ppm ! i) =
           (fst (pos m ppm (sort (map fst m) ! (i + 1))) - fst (pos m ppm (sort (map fst m) ! (i - 1))))
           / (of_int (sort (map fst m) ! (i + 1) - sort (map fst m) ! (i - 1)) / fps)"
    using motion_sample_v_interior [OF assms(4) il]
    by (simp add: s pos_def box_center_def)
  have vy: "md_vy (analyzeMotion m fps ppm ! i) =
           (snd (pos m ppm (sort (map fst m) ! (i + 1))) - snd (pos m ppm (sort (map fst m) ! (i - 1))))
           / (of_int (sort (map fst m) ! (i + 1) - sort (map fst m) ! (i - 1)) / fps)"
    using motion_sample_v_interior [OF assms(4) il]
    by (simp add: s pos_def box_center_def)
  have p: "(md_x (analyzeMotion m fps ppm ! i), md_y (analyzeMotion m fps ppm ! i)) =
           pos m ppm (sort (map fst m) ! i)"
    by (simp add: s motion_sample_x motion_sample_y pos_def box_center_def)
  have "sort (map fst m) ! (i - 1) < sort (map fst m) ! (i + 1)"
    using sorted_keys_strict [OF assms(1), of "i - 1" "i + 1"] assms(4,5) by simp
  then have "0 < of_int (sort (map fst m) ! (i + 1) - sort (map fst m) ! (i - 1)) / fps"
    using assms(2) by simp
  with vx vy p show ?thesis by blast
qed

lemma sort_seq3: "sort (map fst seq3) = [0, 2, 5]"
  by (simp add: seq3_def)

theorem C4_interior_central_difference_witness:
  "md_vx (analyzeMotion seq3 10 100 ! 1) = 4 \<and> md_vy (analyzeMotion seq3 10 100 ! 1) = 0 \<and>
   md_x (analyzeMotion seq3 10 100 ! 1) = 2 \<and> md_y (analyzeMotion seq3 10 100 ! 1) = 1 / 2"
proof -
  have d: "distinct (map fst seq3)" by (simp add: seq3_def)
  have l: "1 + 1 < length seq3" by (simp add: seq3_def)
  from C4_interior_central_difference [OF d _ _ _ l, of 10 100]
  show ?thesis by (simp add: sort_seq3 pos_def box_center_def) (simp add: seq3_def)
qed

lemma motion_sample_cong:
  "map_of m = map_of m' \<Longrightarrow> motion_sample m dt ppm ks acc i = motion_sample m' dt ppm ks acc i"
  by (simp add: motion_sample_def Let_def)

lemma analyze_loop_cong:
  "map_of m = map_of m' \<Longrightarrow> analyze_loop m dt ppm ks acc is = analyze_loop m' dt ppm ks acc is"
  by (induction "is" arbitrary: acc) (simp_all add: motion_sample_cong [of m m'])

lemma analyzeMotion_insertion_order:
  assumes "distinct (map fst m)" and "distinct (map fst m')" and "set m' = set m"
  shows "analyzeMotion m' fps ppm = analyzeMotion m fps ppm"
proof -
  have mo: "map_of m' = map_of m"
    using assms by (simp add: map_of_inject_set)
  have "set (map fst m') = set (map fst m)" using assms(3) by simp
  then have "sort (map fst m') = sort (map fst m)"
    using assms(1,2) by (intro sorted_distinct_set_unique) simp_all
  then show ?thesis
    by (simp add: analyzeMotion_def Let_def analyze_loop_cong [OF mo])
qed

lemma fl64_three_tenths: "fl64 (3 / 10) = 5404319552844595 / 18014398509481984"
proof -
  have "fl64 (3 / 10) =
          of_int (round_half_even ((3 / 10) / 2 powr of_int (- 2 - 52))) * 2 powr of_int (- 2 - 52)"
    by (rule fl64_positive) (simp_all add: powr_minus_divide)
  also have "2 powr of_int (- 2 - 52) = (1::real) / 2 ^ 54"
    by (simp add: powr_minus_divide)
  finally show ?thesis
    by (simp add: round_half_even_def Let_def)
qed

lemma time_stamp_three_at_ten: "fl64 (3 * fl64 (1 / 10)) = 1351079888211149 / 4503599627370496"
proof -
  have "fl64 (10808639105689191 / 36028797018963968) =
          of_int (round_half_even ((10808639105689191 / 36028797018963968) / 2 powr of_int (- 2 - 52)))
          * 2 powr of_int (- 2 - 52)"
    by (rule fl64_positive) (simp_all add: powr_minus_divide)
  also have "2 powr of_int (- 2 - 52) = (1::real) / 2 ^ 54"
    by (simp add: powr_minus_divide)
  finally have "fl64 (10808639105689191 / 36028797018963968) = 1351079888211149 / 4503599627370496"
    by (simp add: round_half_even_def Let_def)
  then show ?thesis by (simp add: fl64_one_tenth)
qed

text \<open>
  C7 fails in the time stamp: for the keys 0 and 3 at 10 frames per second the sample of
  frame 3 has time 3 * (1/10) in doubles, which is 0.30000000000000004
  (1351079888211149 / 2^52), neither the number 3/10 nor the double nearest to it.
\<close>

theorem C7_time_of_frame_three_not_exact:
  "md_frame (analyzeMotion seq03 10 100 ! 1) = 3
   \<and> md_time (analyzeMotion seq03 10 100 ! 1) = 1351079888211149 / 4503599627370496
   \<and> md_time (analyzeMotion seq03 10 100 ! 1) \<noteq> 3 / 10
   \<and> md_time (analyzeMotion seq03 10 100 ! 1) \<noteq> fl64 (3 / 10)"
proof -
  have n: "2 \<le> length seq03" "1 < length seq03" by (simp_all add: seq03_def)
  have ks: "sort (map fst seq03) = [0, 3]" by (simp add: seq03_def)
  have s1: "analyzeMotion seq03 10 100 ! 1 =
            motion_sample seq03 (1 / 10) 100 [0, 3] (take 1 (analyzeMotion seq03 10 100)) 1"
    using analyzeMotion_nth [OF n, of 10 100] by (simp only: ks)
  have "md_frame (analyzeMotion seq03 10 100 ! 1) = 3"
    by (simp only: s1 motion_sample_frame) simp
  moreover have "md_time (analyzeMotion seq03 10 100 ! 1) = 1351079888211149 / 4503599627370496"
    by (simp only: s1 motion_sample_time) (simp add: time_stamp_three_at_ten)
  ultimately show ?thesis by (simp add: fl64_three_tenths)
qed

text \<open>
  C7, as amended: for a tracked sequence with n >= 2 distinct keys, fps > 0 and
  pixelsPerMeter > 0, the estimator returns exactly n samples; their frames are the keys
  in ascending order, whatever the insertion order of the map; the i-th sample has frame
  k_i, and its time is the double product of k_i and the double nearest to 1/fps, which
  is k_i / fps up to a relative error of 2^-51.
\<close>

theorem C7_one_sample_per_key_time_rounded:
  assumes "distinct (map fst m)" and "2 \<le> length m" and "0 < fps" and "0 < ppm"
  shows "length (analyzeMotion m fps ppm) = length m
       \<and> map md_frame (analyzeMotion m fps ppm) = sort (map fst m)
       \<and> sorted_wrt (<) (map md_frame (analyzeMotion m fps ppm))
       \<and> set (map md_frame (analyzeMotion m fps ppm)) = fst ` set m
       \<and> (\<forall>i<length m. md_frame (analyzeMotion m fps ppm ! i) = sort (map fst m) ! i
                      \<and> md_time (analyzeMotion m fps ppm ! i) =
                          fl64 (of_int (sort (map fst m) ! i) * fl64 (1 / fps))
                      \<and> \<bar>md_time (analyzeMotion m fps ppm ! i) - of_int (sort (map fst m) ! i) / fps\<bar>
                          \<le> \<bar>of_int (sort (map fst m) ! i) / fps\<bar> / 2 ^ 51)
       \<and> (\<forall>m'. distinct (map fst m') \<and> set m' = set m \<longrightarrow>
                 analyzeMotion m' fps ppm = analyzeMotion m fps ppm)"
proof -
  let ?out = "analyzeMotion m fps ppm"
  let ?ks = "sort (map fst m)"
  have len: "length ?out = length m" using assms(2) by (rule analyzeMotion_length)
  have fr: "\<forall>i<length m. md_frame (?out ! i) = ?ks ! i"
    using assms(2) by (simp add: analyzeMotion_nth motion_sample_frame)
  have tm: "\<forall>i<length m. md_time (?out ! i) = fl64 (of_int (?ks ! i) * fl64 (1 / fps))"
    using assms(2) by (simp add: analyzeMotion_nth motion_sample_time)
  have err: "\<bar>md_time (?out ! i) - of_int (?ks ! i) / fps\<bar> \<le> \<bar>of_int (?ks ! i) / fps\<bar> / 2 ^ 51"
    if "i < length m" for i
    using time_stamp_error [of "of_int (?ks ! i)" "1 / fps"] tm that by simp
  have nth: "\<forall>i<length m. md_frame (?out ! i) = ?ks ! i
                      \<and> md_time (?out ! i) = fl64 (of_int (?ks ! i) * fl64 (1 / fps))
                      \<and> \<bar>md_time (?out ! i) - of_int (?ks ! i) / fps\<bar>
                          \<le> \<bar>of_int (?ks ! i) / fps\<bar> / 2 ^ 51"
    using fr tm err by blast
  have frames: "map md_frame ?out = ?ks"
    using len fr by (intro nth_equalityI) simp_all
  have strict: "sorted_wrt (<) (map md_frame ?out)"
    using assms(1) by (simp add: frames strict_sorted_iff)
  have keys: "set (map md_frame ?out) = fst ` set m"
    by (simp only: frames) simp
  have order: "\<forall>m'. distinct (map fst m') \<and> set m' = set m \<longrightarrow>
                 analyzeMotion m' fps ppm = analyzeMotion m fps ppm"
    using analyzeMotion_insertion_order [OF assms(1)] by blast
  show ?thesis using len nth frames strict keys order by blast
qed

theorem C7_one_sample_per_key_time_rounded_witness:
  "length (analyzeMotion seq3 10 100) = 3 \<and>
   map md_frame (analyzeMotion seq3 10 100) = [0, 2, 5] \<and>
   md_time (analyzeMotion seq3 10 100 ! 0) = 0 \<and>
   \<bar>md_time (analyzeMotion seq3 10 100 ! 2) - 1 / 2\<bar> \<le> 1 / 2 ^ 52"
proof -
  let ?out = "analyzeMotion seq3 10 100"
  have d: "distinct (map fst seq3)" by (simp add: seq3_def)
  have l: "2 \<le> length seq3" by (simp add: seq3_def)
  have l3: "length seq3 = 3" by (simp add: seq3_def)
  have pos: "(0::real) < 10" "(0::real) < 100" by simp_all
  note c7 = C7_one_sample_per_key_time_rounded [OF d l pos, unfolded sort_seq3 l3]
  have len: "length ?out = 3" using c7 by blast
  have fr: "map md_frame ?out = [0, 2, 5]" using c7 by blast
  have tm: "md_time (?out ! i) = fl64 (of_int ([0, 2, 5] ! i) * fl64 (1 / 10))
            \<and> \<bar>md_time (?out ! i) - of_int ([0, 2, 5] ! i) / 10\<bar>
                \<le> \<bar>of_int ([0, 2, 5] ! i) / 10\<bar> / 2 ^ 51" if "i < 3" for i
    using c7 that by blast
  have "md_time (?out ! 0) = 0" using tm [of 0, THEN conjunct1] by (simp add: fl64_zero)
  moreover have "\<bar>md_time (?out ! 2) - 1 / 2\<bar> \<le> 1 / 2 ^ 52" using tm [of 2, THEN conjunct2] by simp
  ultimately show ?thesis using len fr by simp
qed

text \<open>
  C10: for a tracked sequence with exactly two entries and fps > 0, both samples carry the
  same velocity vector, and both have ax = ay = acceleration = 0.
\<close>

theorem C10_two_entries_same_velocity:
  assumes "length m = 2" and "0 < fps"
  shows "length (analyzeMotion m fps ppm) = 2
       \<and> md_vx (analyzeMotion m fps ppm ! 0) = md_vx (analyzeMotion m fps ppm ! 1)
       \<and> md_vy (analyzeMotion m fps ppm ! 0) = md_vy (analyzeMotion m fps ppm ! 1)
       \<and> (\<forall>i<2. md_ax (analyzeMotion m fps ppm ! i) = 0
                \<and> md_ay (analyzeMotion m fps ppm ! i) = 0
                \<and> md_acceleration (analyzeMotion m fps ppm ! i) = 0)"
proof -
  let ?out = "analyzeMotion m fps ppm"
  let ?ks = "sort (map fst m)"
  have n: "2 \<le> length m" using assms(1) by simp
  have len: "length ?out = 2" using analyzeMotion_length [OF n] assms(1) by simp
  have s0: "?out ! 0 = motion_sample m (1 / fps) ppm ?ks [] 0"
    using analyzeMotion_nth [OF n, of 0 fps ppm] assms(1) by simp
  have s1: "?out ! Suc 0 = motion_sample m (1 / fps) ppm ?ks (take (Suc 0) ?out) (Suc 0)"
    using analyzeMotion_nth [OF n, of "Suc 0" fps ppm] assms(1) by simp
  have lk: "1 < length ?ks" "Suc 0 + 1 = length ?ks" using assms(1) by simp_all
  have t1: "take (Suc 0) ?out ! (Suc 0 - 1) = ?out ! 0" by simp
  note first = motion_sample_v_first [OF lk(1), of m "1 / fps" ppm "[]"]
  note last = motion_sample_v_last [OF _ lk(2), of m "1 / fps" ppm "take (Suc 0) ?out"]
  have vx: "md_vx (?out ! 0) = md_vx (?out ! Suc 0)"
    using first last by (simp add: s0 s1)
  have vy: "md_vy (?out ! 0) = md_vy (?out ! Suc 0)"
    using first last by (simp add: s0 s1)
  have a0: "md_ax (?out ! 0) = 0 \<and> md_ay (?out ! 0) = 0 \<and> md_acceleration (?out ! 0) = 0"
    by (simp only: s0 motion_sample_acc_first)
  have "md_ax (?out ! Suc 0) = (md_vx (?out ! Suc 0) - md_vx (?out ! 0)) / (1 / fps)"
       "md_ay (?out ! Suc 0) = (md_vy (?out ! Suc 0) - md_vy (?out ! 0)) / (1 / fps)"
    using motion_sample_acc_later [of "Suc 0" m "1 / fps" ppm ?ks "take (Suc 0) ?out"]
    by (simp_all only: s1 [symmetric] t1)
  then have a1x: "md_ax (?out ! Suc 0) = 0" and a1y: "md_ay (?out ! Suc 0) = 0"
    using vx vy by simp_all
  have "md_acceleration (?out ! Suc 0) =
        sqrt (md_ax (?out ! Suc 0) * md_ax (?out ! Suc 0) + md_ay (?out ! Suc 0) * md_ay (?out ! Suc 0))"
    using motion_sample_acceleration [of m "1 / fps" ppm ?ks "take (Suc 0) ?out" "Suc 0"]
    by (simp only: s1 [symmetric])
  then have a1: "md_acceleration (?out ! Suc 0) = 0" using a1x a1y by simp
  have "\<forall>i<2. md_ax (?out ! i) = 0 \<and> md_ay (?out ! i) = 0 \<and> md_acceleration (?out ! i) = 0"
    using a0 a1x a1y a1 by (simp add: less_Suc_eq numeral_2_eq_2)
  with len vx vy show ?thesis by simp
qed

theorem C10_two_entries_same_velocity_witness:
  "length seq2 = 2 \<and> md_vx (analyzeMotion seq2 10 100 ! 0) = md_vx (analyzeMotion seq2 10 100 ! 1)
   \<and> md_acceleration (analyzeMotion seq2 10 100 ! 1) = 0"
proof -
  have l: "length seq2 = 2" by (simp add: seq2_def)
  have f: "(0::real) < 10" by simp
  from C10_two_entries_same_velocity [OF l f, of 100] l show ?thesis by simp
qed

lemma analyzeMotion_first:
  assumes "2 \<le> length m"
  shows "analyzeMotion m fps ppm ! 0 = motion_sample m (1 / fps) ppm (sort (map fst m)) [] 0"
proof -
  have "0 < length m" using assms by auto
  from analyzeMotion_nth [OF assms this, of fps ppm] show ?thesis by simp
qed

lemma sort_seq2: "sort (map fst seq2) = [0, 2]"
  by (simp add: seq2_def)

lemma upt_3: "[0..<3] = [0, 1, 2]"
  by (simp add: upt_rec)

lemma analyzeMotion_seq_osc:
  "analyzeMotion seq_osc 1 100 =
    [\<lparr>md_frame = 0, md_x = 1 / 10, md_y = 1 / 10, md_vx = 1, md_vy = 0, md_speed = 1,
      md_ax = 0, md_ay = 0, md_acceleration = 0, md_time = 0\<rparr>,
     \<lparr>md_frame = 1, md_x = 11 / 10, md_y = 1 / 10, md_vx = 0, md_vy = 0, md_speed = 0,
      md_ax = - 1, md_ay = 0, md_acceleration = 1, md_time = 1\<rparr>,
     \<lparr>md_frame = 2, md_x = 1 / 10, md_y = 1 / 10, md_vx = - 1, md_vy = 0, md_speed = 1,
      md_ax = - 1, md_ay = 0, md_acceleration = 1, md_time = 2\<rparr>]"
  by (simp add: analyzeMotion_def seq_osc_def upt_3 motion_sample_def Let_def
        fl64_zero fl64_one fl64_two)

section \<open>The smoother\<close>

lemma reduce_sum_foldl: "foldl (\<lambda>sum d. sum + f d) a xs = a + sum_list (map f xs)"
  by (induction xs arbitrary: a) (simp_all add: add.assoc)

lemma reduce_sum_sum_list: "reduce_sum f window = sum_list (map f window)"
  by (simp add: reduce_sum_def reduce_sum_foldl)

lemma take_drop_nth: "hi \<le> length xs \<Longrightarrow> take (hi - lo) (drop lo xs) = map ((!) xs) [lo..<hi]"
  by (rule nth_equalityI) (auto simp: nth_map_upt)

lemma js_slice_in_range:
  assumes "lo \<le> hi" and "hi \<le> length xs"
  shows "js_slice xs (int lo) (int hi) = map ((!) xs) [lo..<hi]"
proof -
  have "js_slice xs (int lo) (int hi) = take (hi - lo) (drop lo xs)"
    using assms by (simp add: js_slice_def Let_def min_def nat_diff_distrib')
  then show ?thesis using assms(2) by (simp add: take_drop_nth)
qed

lemma window_bounds:
  assumes "0 \<le> w" and "i < n"
  shows "window_lo w i \<le> i" and "i < window_hi w n i" and "window_hi w n i \<le> n"
    and "int (window_lo w i) = max 0 (int i - \<lfloor>w / 2\<rfloor>)"
    and "int (window_hi w n i) = min (int n) (int i + \<lfloor>w / 2\<rfloor> + 1)"
proof -
  have h: "0 \<le> \<lfloor>w / 2\<rfloor>" using assms(1) by simp
  show "window_lo w i \<le> i" unfolding window_lo_def using h by arith
  show "i < window_hi w n i" unfolding window_hi_def using h assms(2) by arith
  show "window_hi w n i \<le> n" by (simp add: window_hi_def)
  show "int (window_lo w i) = max 0 (int i - \<lfloor>w / 2\<rfloor>)" by (simp add: window_lo_def)
  show "int (window_hi w n i) = min (int n) (int i + \<lfloor>w / 2\<rfloor> + 1)"
    using h by (simp add: window_hi_def)
qed

lemma smoothed_window:
  assumes "0 \<le> w" and "i < length data"
  shows "js_slice data (max 0 (int i - \<lfloor>w / 2\<rfloor>)) (min (int (length data)) (int i + \<lfloor>w / 2\<rfloor> + 1))
         = map ((!) data) [window_lo w i..<window_hi w (length data) i]"
proof -
  note b = window_bounds [OF assms]
  have "window_lo w i \<le> window_hi w (length data) i" using b(1,2) by simp
  from js_slice_in_range [OF this b(3)] show ?thesis by (simp only: b(4,5))
qed

lemma reduce_sum_window:
  "reduce_sum f (map ((!) data) [lo..<hi]) / real (length (map ((!) data) [lo..<hi]))
   = mean_over f data lo hi"
  by (simp add: reduce_sum_sum_list mean_over_def comp_def interv_sum_list_conv_sum_set_nat)

lemma smoothed_sample_fields:
  assumes "0 \<le> w" and "i < length data"
  shows "smoothed_sample data \<lfloor>w / 2\<rfloor> i =
    \<lparr> md_frame = md_frame (data ! i),
      md_x = mean_over md_x data (window_lo w i) (window_hi w (length data) i),
      md_y = mean_over md_y data (window_lo w i) (window_hi w (length data) i),
      md_vx = mean_over md_vx data (window_lo w i) (window_hi w (length data) i),
      md_vy = mean_over md_vy data (window_lo w i) (window_hi w (length data) i),
      md_speed = mean_over md_speed data (window_lo w i) (window_hi w (length data) i),
      md_ax = mean_over md_ax data (window_lo w i) (window_hi w (length data) i),
      md_ay = mean_over md_ay data (window_lo w i) (window_hi w (length data) i),
      md_acceleration = mean_over md_acceleration data (window_lo w i) (window_hi w (length data) i),
      md_time = md_time (data ! i) \<rparr>"
  unfolding smoothed_sample_def Let_def smoothed_window [OF assms] reduce_sum_window
  by (rule refl)

lemma smooth_nth:
  assumes "0 \<le> w" and "\<not> real (length data) < w" and "i < length data"
  shows "smoothMotionData data w ! i = smoothed_sample data \<lfloor>w / 2\<rfloor> i"
  using assms by (simp add: smoothMotionData_def)

lemma mean_over_single: "mean_over f data i (Suc i) = f (data ! i)"
  by (simp add: mean_over_def)

lemma smooth_window_one: "smoothMotionData data 1 = data"
proof (cases "real (length data) < 1")
  case True
  then show ?thesis by (simp add: smoothMotionData_def)
next
  case False
  have lo: "window_lo 1 i = i" for i by (simp add: window_lo_def)
  have hi: "i < length data \<Longrightarrow> window_hi 1 (length data) i = Suc i" for i
    unfolding window_hi_def by (simp add: min_def) arith
  have "smoothMotionData data 1 ! i = data ! i" if "i < length data" for i
    using smooth_nth [where w = 1 and data = data and i = i]
          smoothed_sample_fields [where w = 1 and data = data and i = i] that False
    by (simp add: lo hi mean_over_single)
  moreover have "length (smoothMotionData data 1) = length data"
    by (simp add: smoothMotionData_def)
  ultimately show ?thesis by (simp add: nth_equalityI)
qed

text \<open>
  C9: for every sample sequence of length n and every window size w >= 0: if n < w the
  smoother returns its input; otherwise the result has length n and, at each index i, the
  window [max(0, i - floor(w/2)), min(n, i + floor(w/2) + 1)) lies inside the sequence and
  contains i, every field except frame and time is the arithmetic mean of that field over
  the window, and frame and time are those of the input at i. With window 1 the result is
  the input.
\<close>

theorem C9_smoother_window_mean:
  assumes "0 \<le> w"
  shows "(real (length data) < w \<longrightarrow> smoothMotionData data w = data)
       \<and> (\<not> real (length data) < w \<longrightarrow>
            length (smoothMotionData data w) = length data
          \<and> (\<forall>i<length data.
                window_lo w i \<le> i \<and> i < window_hi w (length data) i
              \<and> window_hi w (length data) i \<le> length data
              \<and> smoothMotionData data w ! i =
                 \<lparr> md_frame = md_frame (data ! i),
                   md_x = mean_over md_x data (window_lo w i) (window_hi w (length data) i),
                   md_y = mean_over md_y data (window_lo w i) (window_hi w (length data) i),
                   md_vx = mean_over md_vx data (window_lo w i) (window_hi w (length data) i),
                   md_vy = mean_over md_vy data (window_lo w i) (window_hi w (length data) i),
                   md_speed = mean_over md_speed data (window_lo w i) (window_hi w (length data) i),
                   md_ax = mean_over md_ax data (window_lo w i) (window_hi w (length data) i),
                   md_ay = mean_over md_ay data (window_lo w i) (window_hi w (length data) i),
                   md_acceleration =
                     mean_over md_acceleration data (window_lo w i) (window_hi w (length data) i),
                   md_time = md_time (data ! i) \<rparr>))
       \<and> smoothMotionData data 1 = data"
proof -
  have a: "real (length data) < w \<longrightarrow> smoothMotionData data w = data"
    by (simp add: smoothMotionData_def)
  have b: "\<not> real (length data) < w \<longrightarrow> length (smoothMotionData data w) = length data"
    by (simp add: smoothMotionData_def)
  have c: "window_lo w i \<le> i \<and> i < window_hi w (length data) i
           \<and> window_hi w (length data) i \<le> length data" if "i < length data" for i
    using window_bounds(1,2,3) [OF assms that] by simp
  have d: "smoothMotionData data w ! i =
                 \<lparr> md_frame = md_frame (data ! i),
                   md_x = mean_over md_x data (window_lo w i) (window_hi w (length data) i),
                   md_y = mean_over md_y data (window_lo w i) (window_hi w (length data) i),
                   md_vx = mean_over md_vx data (window_lo w i) (window_hi w (length data) i),
                   md_vy = mean_over md_vy data (window_lo w i) (window_hi w (length data) i),
                   md_speed = mean_over md_speed data (window_lo w i) (window_hi w (length data) i),
                   md_ax = mean_over md_ax data (window_lo w i) (window_hi w (length data) i),
                   md_ay = mean_over md_ay data (window_lo w i) (window_hi w (length data) i),
                   md_acceleration =
                     mean_over md_acceleration data (window_lo w i) (window_hi w (length data) i),
                   md_time = md_time (data ! i) \<rparr>"
    if "\<not> real (length data) < w" and "i < length data" for i
    using smooth_nth [OF assms that] smoothed_sample_fields [OF assms that(2)] by simp
  show ?thesis using a b c d smooth_window_one by blast
qed

lemma window_3_1: "window_lo 3 (Suc 0) = 0 \<and> window_hi 3 3 (Suc 0) = 3"
  by (simp add: window_lo_def window_hi_def)

theorem C9_smoother_window_mean_witness:
  "md_speed (smoothMotionData (analyzeMotion seq_osc 1 100) 3 ! 1) = 2 / 3
   \<and> md_vx (smoothMotionData (analyzeMotion seq_osc 1 100) 3 ! 1) = 0
   \<and> md_frame (smoothMotionData (analyzeMotion seq_osc 1 100) 3 ! 1) = 1"
proof -
  let ?data = "analyzeMotion seq_osc 1 100"
  have l: "length ?data = 3" by (simp add: analyzeMotion_seq_osc)
  have w: "(0::real) \<le> 3" by simp
  have n: "\<not> real (length ?data) < 3" by (simp add: l)
  have i: "1 < length ?data" by (simp add: l)
  from C9_smoother_window_mean [OF w, of ?data] n
  have "\<forall>i<length ?data. smoothMotionData ?data 3 ! i =
          \<lparr> md_frame = md_frame (?data ! i),
            md_x = mean_over md_x ?data (window_lo 3 i) (window_hi 3 (length ?data) i),
            md_y = mean_over md_y ?data (window_lo 3 i) (window_hi 3 (length ?data) i),
            md_vx = mean_over md_vx ?data (window_lo 3 i) (window_hi 3 (length ?data) i),
            md_vy = mean_over md_vy ?data (window_lo 3 i) (window_hi 3 (length ?data) i),
            md_speed = mean_over md_speed ?data (window_lo 3 i) (window_hi 3 (length ?data) i),
            md_ax = mean_over md_ax ?data (window_lo 3 i) (window_hi 3 (length ?data) i),
            md_ay = mean_over md_ay ?data (window_lo 3 i) (window_hi 3 (length ?data) i),
            md_acceleration =
              mean_over md_acceleration ?data (window_lo 3 i) (window_hi 3 (length ?data) i),
            md_time = md_time (?data ! i) \<rparr>"
    by blast
  with i
  have "smoothMotionData ?data 3 ! 1 =
          \<lparr> md_frame = md_frame (?data ! 1),
            md_x = mean_over md_x ?data 0 3, md_y = mean_over md_y ?data 0 3,
            md_vx = mean_over md_vx ?data 0 3, md_vy = mean_over md_vy ?data 0 3,
            md_speed = mean_over md_speed ?data 0 3,
            md_ax = mean_over md_ax ?data 0 3, md_ay = mean_over md_ay ?data 0 3,
            md_acceleration = mean_over md_acceleration ?data 0 3,
            md_time = md_time (?data ! 1) \<rparr>"
    by (simp add: l window_3_1)
  then show ?thesis
    by (simp add: mean_over_def analyzeMotion_seq_osc sum.atLeast0_lessThan_Suc numeral_3_eq_3)
qed

section \<open>Speed and acceleration as norms\<close>

lemma euclidean_norm_triangle:
  "euclidean_norm (a + c) (b + d) \<le> euclidean_norm a b + euclidean_norm c d"
  unfolding euclidean_norm_def by (rule real_sqrt_sum_squares_triangle_ineq)

lemma euclidean_norm_sum_le:
  "euclidean_norm (\<Sum>j = lo..<(hi::nat). a j) (\<Sum>j = lo..<hi. b j)
   \<le> (\<Sum>j = lo..<hi. euclidean_norm (a j) (b j))"
proof (induction hi)
  case 0
  show ?case by (simp add: euclidean_norm_def)
next
  case (Suc hi)
  show ?case
  proof (cases "lo \<le> hi")
    case True
    have "euclidean_norm ((\<Sum>j = lo..<hi. a j) + a hi) ((\<Sum>j = lo..<hi. b j) + b hi)
          \<le> euclidean_norm (\<Sum>j = lo..<hi. a j) (\<Sum>j = lo..<hi. b j) + euclidean_norm (a hi) (b hi)"
      by (rule euclidean_norm_triangle)
    with Suc.IH True show ?thesis by simp
  next
    case False
    then show ?thesis by (simp add: euclidean_norm_def)
  qed
qed

lemma euclidean_norm_divide:
  assumes "0 < n"
  shows "euclidean_norm (a / n) (b / n) = euclidean_norm a b / n"
proof -
  have "(a / n)\<^sup>2 + (b / n)\<^sup>2 = (a\<^sup>2 + b\<^sup>2) / n\<^sup>2"
    by (simp add: power_divide add_divide_distrib)
  then show ?thesis
    using assms by (simp add: euclidean_norm_def real_sqrt_divide)
qed

lemma mean_norm_le:
  assumes "lo < hi" and "\<forall>j. lo \<le> j \<and> j < hi \<longrightarrow> s (data ! j) = euclidean_norm (a (data ! j)) (b (data ! j))"
  shows "euclidean_norm (mean_over a data lo hi) (mean_over b data lo hi) \<le> mean_over s data lo hi"
proof -
  have n: "0 < real (hi - lo)" using assms(1) by simp
  have "(\<Sum>j = lo..<hi. s (data ! j)) = (\<Sum>j = lo..<hi. euclidean_norm (a (data ! j)) (b (data ! j)))"
    using assms(2) by (intro sum.cong) simp_all
  then have "euclidean_norm (\<Sum>j = lo..<hi. a (data ! j)) (\<Sum>j = lo..<hi. b (data ! j))
        \<le> (\<Sum>j = lo..<hi. s (data ! j))"
    using euclidean_norm_sum_le [where lo = lo and hi = hi and a = "\<lambda>j. a (data ! j)"
            and b = "\<lambda>j. b (data ! j)"] by simp
  then have "euclidean_norm (\<Sum>j = lo..<hi. a (data ! j)) (\<Sum>j = lo..<hi. b (data ! j)) / real (hi - lo)
        \<le> (\<Sum>j = lo..<hi. s (data ! j)) / real (hi - lo)"
    using n by (simp add: divide_right_mono)
  then show ?thesis
    unfolding mean_over_def euclidean_norm_divide [OF n] .
qed

lemma analyzeMotion_nonempty:
  "i < length (analyzeMotion m fps ppm) \<Longrightarrow> 2 \<le> length m \<and> i < length m"
  by (cases "length m < 2") (simp_all add: analyzeMotion_def analyze_loop_length)

lemma estimator_norms:
  assumes "i < length (analyzeMotion m fps ppm)"
  shows "md_speed (analyzeMotion m fps ppm ! i) =
           euclidean_norm (md_vx (analyzeMotion m fps ppm ! i)) (md_vy (analyzeMotion m fps ppm ! i))"
    and "md_acceleration (analyzeMotion m fps ppm ! i) =
           euclidean_norm (md_ax (analyzeMotion m fps ppm ! i)) (md_ay (analyzeMotion m fps ppm ! i))"
proof -
  from analyzeMotion_nonempty [OF assms] have n: "2 \<le> length m" "i < length m" by simp_all
  note s = analyzeMotion_nth [OF n, of fps ppm]
  show "md_speed (analyzeMotion m fps ppm ! i) =
           euclidean_norm (md_vx (analyzeMotion m fps ppm ! i)) (md_vy (analyzeMotion m fps ppm ! i))"
    using motion_sample_speed [of m "1 / fps" ppm "sort (map fst m)" "take i (analyzeMotion m fps ppm)" i]
    by (simp only: s [symmetric] euclidean_norm_def power2_eq_square)
  show "md_acceleration (analyzeMotion m fps ppm ! i) =
           euclidean_norm (md_ax (analyzeMotion m fps ppm ! i)) (md_ay (analyzeMotion m fps ppm ! i))"
    using motion_sample_acceleration [of m "1 / fps" ppm "sort (map fst m)" "take i (analyzeMotion m fps ppm)" i]
    by (simp only: s [symmetric] euclidean_norm_def power2_eq_square)
qed

lemma smoothed_seq_osc:
  "md_speed (smoothMotionData (analyzeMotion seq_osc 1 100) 3 ! 1) = 2 / 3
   \<and> md_vx (smoothMotionData (analyzeMotion seq_osc 1 100) 3 ! 1) = 0
   \<and> md_vy (smoothMotionData (analyzeMotion seq_osc 1 100) 3 ! 1) = 0"
proof -
  let ?data = "analyzeMotion seq_osc 1 100"
  have l: "length ?data = 3" by (simp add: analyzeMotion_seq_osc)
  have "smoothMotionData ?data 3 ! Suc 0 = smoothed_sample ?data \<lfloor>(3::real) / 2\<rfloor> (Suc 0)"
    using smooth_nth [where w = 3 and data = ?data and i = "Suc 0"] by (simp add: l)
  moreover have "smoothed_sample ?data \<lfloor>(3::real) / 2\<rfloor> (Suc 0) =
          \<lparr> md_frame = md_frame (?data ! Suc 0),
            md_x = mean_over md_x ?data 0 3, md_y = mean_over md_y ?data 0 3,
            md_vx = mean_over md_vx ?data 0 3, md_vy = mean_over md_vy ?data 0 3,
            md_speed = mean_over md_speed ?data 0 3,
            md_ax = mean_over md_ax ?data 0 3, md_ay = mean_over md_ay ?data 0 3,
            md_acceleration = mean_over md_acceleration ?data 0 3,
            md_time = md_time (?data ! Suc 0) \<rparr>"
    using smoothed_sample_fields [where w = 3 and data = ?data and i = "Suc 0"]
    by (simp add: l window_3_1)
  ultimately have "smoothMotionData ?data 3 ! 1 =
          \<lparr> md_frame = md_frame (?data ! Suc 0),
            md_x = mean_over md_x ?data 0 3, md_y = mean_over md_y ?data 0 3,
            md_vx = mean_over md_vx ?data 0 3, md_vy = mean_over md_vy ?data 0 3,
            md_speed = mean_over md_speed ?data 0 3,
            md_ax = mean_over md_ax ?data 0 3, md_ay = mean_over md_ay ?data 0 3,
            md_acceleration = mean_over md_acceleration ?data 0 3,
            md_time = md_time (?data ! Suc 0) \<rparr>"
    by simp
  then show ?thesis
    by (simp add: mean_over_def analyzeMotion_seq_osc sum.atLeast0_lessThan_Suc numeral_3_eq_3)
qed

text \<open>
  C3 fails for the smoother: for boxes that move 1 m to the right and back (keys 0, 1, 2
  at one frame per second) the smoothed middle sample has vx = vy = 0 and speed = 2/3.
\<close>

theorem C3_smoothed_speed_not_norm:
  "md_speed (smoothMotionData (analyzeMotion seq_osc 1 100) 3 ! 1) \<noteq>
   euclidean_norm (md_vx (smoothMotionData (analyzeMotion seq_osc 1 100) 3 ! 1))
                  (md_vy (smoothMotionData (analyzeMotion seq_osc 1 100) 3 ! 1))"
  using smoothed_seq_osc by (simp add: euclidean_norm_def)

text \<open>
  C3, as amended: every sample produced by the estimator has speed equal to the Euclidean
  norm of (vx, vy) and acceleration equal to the Euclidean norm of (ax, ay). The smoother
  (window size >= 0) averages speed and acceleration as fields of their own: on the
  estimator's output they are the window means of the estimator's speed and acceleration,
  and so at least the norms of the smoothed (vx, vy) and (ax, ay).
\<close>

theorem C3_norms_estimator_and_smoothed_bound:
  assumes "0 \<le> w"
  shows "(\<forall>i<length (analyzeMotion m fps ppm).
            md_speed (analyzeMotion m fps ppm ! i) =
              euclidean_norm (md_vx (analyzeMotion m fps ppm ! i)) (md_vy (analyzeMotion m fps ppm ! i))
          \<and> md_acceleration (analyzeMotion m fps ppm ! i) =
              euclidean_norm (md_ax (analyzeMotion m fps ppm ! i)) (md_ay (analyzeMotion m fps ppm ! i)))
       \<and> (\<forall>i<length (smoothMotionData (analyzeMotion m fps ppm) w).
            euclidean_norm (md_vx (smoothMotionData (analyzeMotion m fps ppm) w ! i))
                           (md_vy (smoothMotionData (analyzeMotion m fps ppm) w ! i))
              \<le> md_speed (smoothMotionData (analyzeMotion m fps ppm) w ! i)
          \<and> euclidean_norm (md_ax (smoothMotionData (analyzeMotion m fps ppm) w ! i))
                           (md_ay (smoothMotionData (analyzeMotion m fps ppm) w ! i))
              \<le> md_acceleration (smoothMotionData (analyzeMotion m fps ppm) w ! i)
          \<and> (\<not> real (length (analyzeMotion m fps ppm)) < w \<longrightarrow>
               md_speed (smoothMotionData (analyzeMotion m fps ppm) w ! i) =
                 mean_over md_speed (analyzeMotion m fps ppm) (window_lo w i)
                   (window_hi w (length (analyzeMotion m fps ppm)) i)
             \<and> md_acceleration (smoothMotionData (analyzeMotion m fps ppm) w ! i) =
                 mean_over md_acceleration (analyzeMotion m fps ppm) (window_lo w i)
                   (window_hi w (length (analyzeMotion m fps ppm)) i)))"
proof -
  let ?est = "analyzeMotion m fps ppm"
  let ?sm = "smoothMotionData ?est w"
  have est: "md_speed (?est ! i) = euclidean_norm (md_vx (?est ! i)) (md_vy (?est ! i))
           \<and> md_acceleration (?est ! i) = euclidean_norm (md_ax (?est ! i)) (md_ay (?est ! i))"
    if "i < length ?est" for i
    using estimator_norms [OF that] by simp
  have sm: "euclidean_norm (md_vx (?sm ! i)) (md_vy (?sm ! i)) \<le> md_speed (?sm ! i)
          \<and> euclidean_norm (md_ax (?sm ! i)) (md_ay (?sm ! i)) \<le> md_acceleration (?sm ! i)
          \<and> (\<not> real (length ?est) < w \<longrightarrow>
               md_speed (?sm ! i) =
                 mean_over md_speed ?est (window_lo w i) (window_hi w (length ?est) i)
             \<and> md_acceleration (?sm ! i) =
                 mean_over md_acceleration ?est (window_lo w i) (window_hi w (length ?est) i))"
    if i: "i < length ?sm" for i
  proof (cases "real (length ?est) < w")
    case True
    then have "?sm = ?est" by (simp add: smoothMotionData_def)
    then show ?thesis using est [of i] i True by simp
  next
    case False
    then have il: "i < length ?est" using i by (simp add: smoothMotionData_def)
    let ?lo = "window_lo w i" and ?hi = "window_hi w (length ?est) i"
    note b = window_bounds(1,2,3) [OF assms il]
    have lh: "?lo < ?hi" using b by simp
    have inr: "\<forall>j. ?lo \<le> j \<and> j < ?hi \<longrightarrow> j < length ?est" using b by simp
    have eq: "?sm ! i = smoothed_sample ?est \<lfloor>w / 2\<rfloor> i"
      by (rule smooth_nth [OF assms False il])
    note f = smoothed_sample_fields [OF assms il]
    have v: "euclidean_norm (mean_over md_vx ?est ?lo ?hi) (mean_over md_vy ?est ?lo ?hi)
             \<le> mean_over md_speed ?est ?lo ?hi"
      using inr est by (intro mean_norm_le [OF lh]) blast
    have a: "euclidean_norm (mean_over md_ax ?est ?lo ?hi) (mean_over md_ay ?est ?lo ?hi)
             \<le> mean_over md_acceleration ?est ?lo ?hi"
      using inr est by (intro mean_norm_le [OF lh]) blast
    show ?thesis using v a by (simp add: eq f)
  qed
  show ?thesis using est sm by blast
qed

theorem C3_norms_estimator_and_smoothed_bound_witness:
  "md_speed (analyzeMotion seq_osc 1 100 ! 2) = euclidean_norm (- 1) 0
   \<and> euclidean_norm (md_vx (smoothMotionData (analyzeMotion seq_osc 1 100) 3 ! 2))
                    (md_vy (smoothMotionData (analyzeMotion seq_osc 1 100) 3 ! 2))
       \<le> md_speed (smoothMotionData (analyzeMotion seq_osc 1 100) 3 ! 2)"
proof -
  let ?est = "analyzeMotion seq_osc 1 100"
  have w: "(0::real) \<le> 3" by simp
  have l: "length ?est = 3" by (simp add: analyzeMotion_seq_osc)
  have ls: "length (smoothMotionData ?est 3) = 3" by (simp add: smoothMotionData_def l)
  note c3 = C3_norms_estimator_and_smoothed_bound [OF w, of seq_osc 1 100]
  have "md_speed (?est ! 2) = euclidean_norm (md_vx (?est ! 2)) (md_vy (?est ! 2))"
    using c3 l by simp
  moreover have "md_vx (?est ! 2) = - 1" "md_vy (?est ! 2) = 0"
    by (simp_all add: analyzeMotion_seq_osc)
  moreover have "euclidean_norm (md_vx (smoothMotionData ?est 3 ! 2))
                    (md_vy (smoothMotionData ?est 3 ! 2))
       \<le> md_speed (smoothMotionData ?est 3 ! 2)"
    using c3 ls by simp
  ultimately show ?thesis by simp
qed

section \<open>Candidate selection\<close>

lemma detection_step_eq:
  "detection_step data hint W H (bd, bs) i =
     (if acceptable data i \<and> candidate_score data hint W H i > bs
      then (Some (candidate_box data W H i), candidate_score data hint W H i)
      else (bd, bs))"
  by (simp add: detection_step_def Let_def acceptable_def candidate_score_def
        candidate_confidence_def distance_to_hint_center_def candidate_center_def
        candidate_box_def box_center_def euclidean_norm_def)

lemma candidate_score_pos:
  assumes "acceptable data i"
  shows "0 < candidate_score data hint W H i"
proof -
  have "0 \<le> distance_to_hint_center data hint W H i"
    by (simp add: distance_to_hint_center_def euclidean_norm_def)
  then have "0 < 1 + distance_to_hint_center data hint W H i / 100" by simp
  moreover have "0 < candidate_confidence data i"
    using assms by (simp add: acceptable_def)
  ultimately show ?thesis by (simp add: candidate_score_def)
qed

lemma first_best_unique:
  assumes "first_best data hint W H n i" and "first_best data hint W H n j"
  shows "i = j"
proof (rule ccontr)
  assume "i \<noteq> j"
  then consider "i < j" | "j < i" by linarith
  then show False
  proof cases
    case 1
    then have "candidate_score data hint W H i < candidate_score data hint W H j"
      using assms by (simp add: first_best_def)
    moreover have "candidate_score data hint W H j \<le> candidate_score data hint W H i"
      using assms by (simp add: first_best_def)
    ultimately show False by simp
  next
    case 2
    then have "candidate_score data hint W H j < candidate_score data hint W H i"
      using assms by (simp add: first_best_def)
    moreover have "candidate_score data hint W H i \<le> candidate_score data hint W H j"
      using assms by (simp add: first_best_def)
    ultimately show False by simp
  qed
qed

lemma postprocess_loop_Suc:
  "postprocess_loop data hint W H (Suc n) =
     detection_step data hint W H (postprocess_loop data hint W H n) n"
  by (simp add: postprocess_loop_def)

lemma postprocess_loop_inv:
  "(\<forall>i<n. \<not> acceptable data i) \<and> postprocess_loop data hint W H n = (None, 0)
   \<or> (\<exists>i. first_best data hint W H n i \<and>
            postprocess_loop data hint W H n =
              (Some (candidate_box data W H i), candidate_score data hint W H i))"
proof (induction n)
  case 0
  show ?case by (simp add: postprocess_loop_def)
next
  case (Suc n)
  let ?sc = "candidate_score data hint W H"
  from Suc.IH show ?case
  proof (elim disjE conjE exE)
    assume none: "\<forall>i<n. \<not> acceptable data i"
      and st: "postprocess_loop data hint W H n = (None, 0)"
    show ?thesis
    proof (cases "acceptable data n")
      case True
      then have "0 < ?sc n" by (rule candidate_score_pos)
      then have "postprocess_loop data hint W H (Suc n) = (Some (candidate_box data W H n), ?sc n)"
        using True by (simp add: postprocess_loop_Suc st detection_step_eq)
      moreover have "first_best data hint W H (Suc n) n"
        using True none by (auto simp: first_best_def less_Suc_eq)
      ultimately show ?thesis by blast
    next
      case False
      then have "postprocess_loop data hint W H (Suc n) = (None, 0)"
        by (simp add: postprocess_loop_Suc st detection_step_eq)
      moreover have "\<forall>i<Suc n. \<not> acceptable data i"
        using none False by (simp add: less_Suc_eq)
      ultimately show ?thesis by blast
    qed
  next
    fix i
    assume fb: "first_best data hint W H n i"
      and st: "postprocess_loop data hint W H n = (Some (candidate_box data W H i), ?sc i)"
    show ?thesis
    proof (cases "acceptable data n \<and> ?sc n > ?sc i")
      case True
      then have "postprocess_loop data hint W H (Suc n) = (Some (candidate_box data W H n), ?sc n)"
        by (simp add: postprocess_loop_Suc st detection_step_eq)
      moreover have "first_best data hint W H (Suc n) n"
        using True fb by (fastforce simp: first_best_def less_Suc_eq)
      ultimately show ?thesis by blast
    next
      case False
      then have "postprocess_loop data hint W H (Suc n) = (Some (candidate_box data W H i), ?sc i)"
        by (auto simp: postprocess_loop_Suc st detection_step_eq)
      moreover have "first_best data hint W H (Suc n) i"
        using False fb by (fastforce simp: first_best_def less_Suc_eq)
      ultimately show ?thesis by blast
    qed
  qed
qed

lemma postprocessResults_None_iff:
  "postprocessResults data hint W H = None \<longleftrightarrow> (\<forall>i<8400. \<not> acceptable data i)"
  using postprocess_loop_inv [of 8400 data hint W H]
  by (auto simp: postprocessResults_def first_best_def)

lemma postprocessResults_first_best:
  assumes "first_best data hint W H 8400 i"
  shows "postprocessResults data hint W H = Some (candidate_box data W H i)"
proof -
  have "\<not> (\<forall>i<8400. \<not> acceptable data i)" using assms by (auto simp: first_best_def)
  with postprocess_loop_inv [of 8400 data hint W H]
  obtain j where j: "first_best data hint W H 8400 j"
    and st: "postprocess_loop data hint W H 8400 =
               (Some (candidate_box data W H j), candidate_score data hint W H j)"
    by blast
  have "j = i" using j assms by (rule first_best_unique)
  then show ?thesis using st by (simp add: postprocessResults_def)
qed

lemma first_best_exists:
  assumes "\<exists>i<8400. acceptable data i"
  shows "\<exists>i. first_best data hint W H 8400 i"
  using postprocess_loop_inv [of 8400 data hint W H] assms by blast

lemma candidate_box_center:
  "box_center (ROIData.truncate (candidate_box data W H i)) = candidate_center data W H i"
  by (simp add: box_center_def candidate_box_def candidate_center_def ROIData.truncate_def
        field_simps)

lemma fold_max_const:
  assumes "\<forall>c\<in>set cs. g c = (v::real)" and "cs \<noteq> []" and "m0 \<le> v"
  shows "fold (\<lambda>c maxScore. let score = g c in if score > maxScore then score else maxScore) cs m0 = v"
  using assms
proof (induction cs arbitrary: m0)
  case Nil
  then show ?case by simp
next
  case (Cons c cs)
  have step: "(let score = g c in if score > m0 then score else m0) = v"
    using Cons.prems(1,3) by (auto simp: Let_def)
  show ?case
  proof (cases "cs = []")
    case True
    then show ?thesis using step by simp
  next
    case False
    have "fold (\<lambda>c maxScore. let score = g c in if score > maxScore then score else maxScore) cs v = v"
      using Cons.prems(1) False by (intro Cons.IH) simp_all
    then show ?thesis using step by simp
  qed
qed

lemma max_class_score_const:
  assumes "\<forall>c. 4 \<le> c \<and> c < 84 \<longrightarrow> data (c * 8400 + j) = v" and "0 \<le> v"
  shows "max_class_score data j = v"
  unfolding max_class_score_def
proof (rule fold_max_const)
  show "\<forall>c\<in>set [4..<84]. data (c * 8400 + j) = v"
  proof
    fix c :: nat
    assume "c \<in> set [4..<84]"
    then have "4 \<le> c \<and> c < 84" by (simp only: set_upt atLeastLessThan_iff)
    then show "data (c * 8400 + j) = v" using assms(1) by blast
  qed
  show "[4..<84] \<noteq> []" by (simp only: upt_eq_Nil_conv) simp
  show "0 \<le> v" by (rule assms(2))
qed

lemma tensor0_confidence:
  assumes "j < 8400"
  shows "candidate_confidence tensor0 j = (if j = 7 \<or> j = 9 then 9 / 10 else 1 / 2)"
proof -
  have "tensor0 (c * 8400 + j) = (if j = 7 \<or> j = 9 then 9 / 10 else 1 / 2)" if "4 \<le> c" for c
  proof -
    have "4 * 8400 \<le> c * 8400" using that by (intro mult_right_mono) simp_all
    then have "\<not> c * 8400 + j < 33600" by simp
    then show ?thesis using assms by (simp add: tensor0_def)
  qed
  then show ?thesis
    unfolding candidate_confidence_def by (intro max_class_score_const) simp_all
qed

lemma tensor0_score:
  assumes "j < 8400"
  shows "candidate_score tensor0 hint0 640 640 j = candidate_confidence tensor0 j"
proof -
  have "tensor0 j = 320" "tensor0 (8400 + j) = 320" using assms by (simp_all add: tensor0_def)
  then have "distance_to_hint_center tensor0 hint0 640 640 j = 0"
    by (simp add: distance_to_hint_center_def candidate_center_def box_center_def hint0_def
          euclidean_norm_def)
  then show ?thesis by (simp add: candidate_score_def)
qed

lemma tensor0_first_best: "first_best tensor0 hint0 640 640 8400 7"
  unfolding first_best_def
  by (auto simp: acceptable_def tensor0_score tensor0_confidence)

text \<open>
  C6: a detection step returns null exactly when no candidate has confidence above 0.25;
  otherwise it returns the candidate that maximises score = confidence / (1 + distance / 100)
  among those above the threshold, the first-seen one among equal scores (and such a
  candidate exists). distance is the Euclidean distance between the hint's centre and the
  candidate's centre, which is the centre of the returned box.
\<close>

theorem C6_selects_first_best_candidate:
  "(\<forall>i. first_best data hint W H 8400 i \<longrightarrow>
         postprocessResults data hint W H = Some (candidate_box data W H i))
   \<and> ((\<exists>i<8400. acceptable data i) \<longrightarrow> (\<exists>i. first_best data hint W H 8400 i))
   \<and> (postprocessResults data hint W H = None \<longleftrightarrow> (\<forall>i<8400. \<not> acceptable data i))
   \<and> (\<forall>i. box_center (ROIData.truncate (candidate_box data W H i)) = candidate_center data W H i
          \<and> confidence (candidate_box data W H i) = candidate_confidence data i)"
  using postprocessResults_first_best [of data hint W H] first_best_exists [of data hint W H]
    postprocessResults_None_iff [of data hint W H] candidate_box_center [of data W H]
  by (simp add: candidate_box_def)

theorem C6_selects_first_best_candidate_witness:
  "first_best tensor0 hint0 640 640 8400 7
   \<and> candidate_score tensor0 hint0 640 640 9 = candidate_score tensor0 hint0 640 640 7
   \<and> postprocessResults tensor0 hint0 640 640 =
       Some \<lparr>roi_x = 160, roi_y = 160, roi_w = 320, roi_h = 320, confidence = 9 / 10\<rparr>"
proof -
  have "postprocessResults tensor0 hint0 640 640 = Some (candidate_box tensor0 640 640 7)"
    using C6_selects_first_best_candidate [of tensor0 hint0 640 640] tensor0_first_best by blast
  moreover have "candidate_box tensor0 640 640 7 =
      \<lparr>roi_x = 160, roi_y = 160, roi_w = 320, roi_h = 320, confidence = 9 / 10\<rparr>"
    using tensor0_confidence [of 7] by (simp add: candidate_box_def tensor0_def)
  moreover have "candidate_score tensor0 hint0 640 640 9 = candidate_score tensor0 hint0 640 640 7"
    by (simp add: tensor0_score tensor0_confidence)
  ultimately show ?thesis using tensor0_first_best by simp
qed

section \<open>Tracking with a detector that never finds a candidate\<close>









section \<open>The estimator on keys that are not contiguous\<close>

text \<open>
  Every key the loop looks up comes from the map itself, so the non-null assertions of
  the source never meet \<open>undefined\<close>.
\<close>

lemma lookup_defined:
  assumes "i < length m"
  shows "map_of m (sort (map fst m) ! i) \<noteq> None"
proof -
  have "sort (map fst m) ! i \<in> set (sort (map fst m))"
    using assms by (intro nth_mem) simp
  then have "sort (map fst m) ! i \<in> fst ` set m" by simp
  then show ?thesis by (simp add: map_of_eq_None_iff)
qed

text \<open>
  What the source computes at the two ends and for the acceleration: the differences are
  divided by the fixed step \<open>1 / fps\<close>, whatever the distance of the neighbouring keys.
\<close>

lemma estimator_first_velocity:
  assumes "2 \<le> length m"
  shows "md_vx (analyzeMotion m fps ppm ! 0) =
           (fst (pos m ppm (sort (map fst m) ! 1)) - fst (pos m ppm (sort (map fst m) ! 0))) / (1 / fps)"
    and "md_vy (analyzeMotion m fps ppm ! 0) =
           (snd (pos m ppm (sort (map fst m) ! 1)) - snd (pos m ppm (sort (map fst m) ! 0))) / (1 / fps)"
proof -
  have l: "1 < length (sort (map fst m))" using assms by simp
  note v = motion_sample_v_first [OF l, of m "1 / fps" ppm "[]"]
  show "md_vx (analyzeMotion m fps ppm ! 0) =
           (fst (pos m ppm (sort (map fst m) ! 1)) - fst (pos m ppm (sort (map fst m) ! 0))) / (1 / fps)"
    using v by (simp add: analyzeMotion_first [OF assms] pos_def box_center_def)
  show "md_vy (analyzeMotion m fps ppm ! 0) =
           (snd (pos m ppm (sort (map fst m) ! 1)) - snd (pos m ppm (sort (map fst m) ! 0))) / (1 / fps)"
    using v by (simp add: analyzeMotion_first [OF assms] pos_def box_center_def)
qed

lemma estimator_last_velocity:
  assumes "2 \<le> length m" and "i + 1 = length m"
  shows "md_vx (analyzeMotion m fps ppm ! i) =
           (fst (pos m ppm (sort (map fst m) ! i)) - fst (pos m ppm (sort (map fst m) ! (i - 1)))) / (1 / fps)"
    and "md_vy (analyzeMotion m fps ppm ! i) =
           (snd (pos m ppm (sort (map fst m) ! i)) - snd (pos m ppm (sort (map fst m) ! (i - 1)))) / (1 / fps)"
proof -
  have i: "0 < i" "i < length m" "i + 1 = length (sort (map fst m))" using assms by simp_all
  note s = analyzeMotion_nth [OF assms(1) i(2), of fps ppm]
  note v = motion_sample_v_last [OF i(1) i(3), of m "1 / fps" ppm "take i (analyzeMotion m fps ppm)"]
  show "md_vx (analyzeMotion m fps ppm ! i) =
           (fst (pos m ppm (sort (map fst m) ! i)) - fst (pos m ppm (sort (map fst m) ! (i - 1)))) / (1 / fps)"
    using v by (simp add: s pos_def box_center_def)
  show "md_vy (analyzeMotion m fps ppm ! i) =
           (snd (pos m ppm (sort (map fst m) ! i)) - snd (pos m ppm (sort (map fst m) ! (i - 1)))) / (1 / fps)"
    using v by (simp add: s pos_def box_center_def)
qed

lemma estimator_acceleration:
  assumes "2 \<le> length m" and "0 < i" and "i < length m"
  shows "md_ax (analyzeMotion m fps ppm ! i) =
           (md_vx (analyzeMotion m fps ppm ! i) - md_vx (analyzeMotion m fps ppm ! (i - 1))) / (1 / fps)"
    and "md_ay (analyzeMotion m fps ppm ! i) =
           (md_vy (analyzeMotion m fps ppm ! i) - md_vy (analyzeMotion m fps ppm ! (i - 1))) / (1 / fps)"
proof -
  let ?out = "analyzeMotion m fps ppm"
  have t: "take i ?out ! (i - 1) = ?out ! (i - 1)" using assms(2) by simp
  note s = analyzeMotion_nth [OF assms(1,3), of fps ppm]
  note a = motion_sample_acc_later [OF assms(2), of m "1 / fps" ppm "sort (map fst m)" "take i ?out"]
  show "md_ax (?out ! i) = (md_vx (?out ! i) - md_vx (?out ! (i - 1))) / (1 / fps)"
    using a by (simp only: s [symmetric] t)
  show "md_ay (?out ! i) = (md_vy (?out ! i) - md_vy (?out ! (i - 1))) / (1 / fps)"
    using a by (simp only: s [symmetric] t)
qed

lemma estimator_first_acceleration:
  assumes "2 \<le> length m"
  shows "md_ax (analyzeMotion m fps ppm ! 0) = 0 \<and> md_ay (analyzeMotion m fps ppm ! 0) = 0
       \<and> md_acceleration (analyzeMotion m fps ppm ! 0) = 0"
  by (simp only: analyzeMotion_first [OF assms] motion_sample_acc_first)

text \<open>
  C1 at the sequence with keys 0 and 2 (boxes centred at x = 110 and x = 310 pixels), 10
  frames per second and 100 pixels per metre: the estimator divides the displacement of
  2 m by 1/fps and reports 20 m/s for the first and for the last sample, where the true
  elapsed time (k_1 - k_0)/fps = 0.2 s gives 10 m/s.
\<close>

theorem C1_boundary_velocity_unit_step:
  "md_vx (analyzeMotion seq2 10 100 ! 0) = 20
   \<and> md_vx (analyzeMotion seq2 10 100 ! 1) = 20
   \<and> (fst (pos seq2 100 2) - fst (pos seq2 100 0)) / (of_int (2 - 0) / 10) = 10"
proof -
  let ?out = "analyzeMotion seq2 10 100"
  have n: "2 \<le> length seq2" by (simp add: seq2_def)
  have s0: "?out ! 0 = motion_sample seq2 (1 / 10) 100 [0, 2] [] 0"
    using analyzeMotion_first [OF n, of 10 100] by (simp only: sort_seq2)
  have s1: "?out ! 1 = motion_sample seq2 (1 / 10) 100 [0, 2] (take 1 ?out) 1"
    using analyzeMotion_nth [OF n, of 1 10 100] by (simp add: sort_seq2 seq2_def)
  have v0: "md_vx (?out ! 0) = 20"
    by (simp only: s0) (simp add: motion_sample_def seq2_def)
  have v1: "md_vx (?out ! 1) = 20"
    by (simp only: s1) (simp add: motion_sample_def seq2_def Let_def)
  have "(fst (pos seq2 100 2) - fst (pos seq2 100 0)) / (of_int (2 - 0) / 10) = 10"
    by (simp add: pos_def box_center_def seq2_def)
  with v0 v1 show ?thesis by simp
qed

text \<open>
  C2 at the sequence with keys 0, 2 and 5 (10 frames per second, 100 pixels per metre):
  the velocities of the first two samples are 10 and 4 m/s and the keys are 2 frames
  apart, so the true elapsed time 0.2 s gives an acceleration of -30 m/s^2; the estimator
  divides by 1/fps and reports -60.
\<close>

theorem C2_acceleration_unit_step:
  "md_vx (analyzeMotion seq3 10 100 ! 0) = 10
   \<and> md_vx (analyzeMotion seq3 10 100 ! 1) = 4
   \<and> md_ax (analyzeMotion seq3 10 100 ! 1) = - 60
   \<and> (md_vx (analyzeMotion seq3 10 100 ! 1) - md_vx (analyzeMotion seq3 10 100 ! 0))
       / (of_int (sort (map fst seq3) ! 1 - sort (map fst seq3) ! 0) / 10) = - 30"
  by (simp add: analyzeMotion_def seq3_def upt_3 motion_sample_def Let_def)

end
